theory Spec2Isabelle
  imports Main "HOL-Library.Sublist"
begin

section \<open>Keep-alive tray application: model of \<open>keep-alive.py\<close>\<close>

text \<open>
  The program polls three conditions of the machine (local hour, power source, network
  interfaces) and, while all hold, presses a harmless key every update period.  The
  platform queries (\<open>datetime.now\<close>, \<open>psutil.sensors_battery\<close>,
  \<open>psutil.net_if_stats\<close>, \<open>psutil.net_if_addrs\<close>) are external; one reading of all of
  them is the record \<open>env\<close>.  A query that raises is the \<open>Inl\<close> branch of a sum.
  Standard output is a list of lines; \<open>print\<close> appends one line.
\<close>

subsection \<open>Python string operations used by the program\<close>

text \<open>\<open>str.startswith\<close>: the second argument is the prefix looked for.\<close>

fun startswith :: "string \<Rightarrow> string \<Rightarrow> bool" where
  "startswith s [] = True"
| "startswith [] (p # ps) = False"
| "startswith (c # cs) (p # ps) = (c = p \<and> startswith cs ps)"

text \<open>\<open>pattern in s\<close>: \<open>pattern\<close> occurs in \<open>s\<close> as a contiguous substring.\<close>

fun str_contains :: "string \<Rightarrow> string \<Rightarrow> bool" where
  "str_contains p [] = (p = [])"
| "str_contains p (c # cs) = (startswith (c # cs) p \<or> str_contains p cs)"

definition endswith :: "string \<Rightarrow> string \<Rightarrow> bool" where
  "endswith s p = startswith (rev s) (rev p)"

text \<open>
  Case mapping on the ASCII letters; a \<open>char\<close> is a byte, and bytes outside
  \<open>A..Z\<close> / \<open>a..z\<close> are left as they are.
\<close>

definition is_upper :: "char \<Rightarrow> bool" where
  "is_upper c = (65 \<le> (of_char c :: nat) \<and> (of_char c :: nat) \<le> 90)"

definition is_lower :: "char \<Rightarrow> bool" where
  "is_lower c = (97 \<le> (of_char c :: nat) \<and> (of_char c :: nat) \<le> 122)"

definition lower_char :: "char \<Rightarrow> char" where
  "lower_char c = (if is_upper c then char_of ((of_char c :: nat) + 32) else c)"

definition upper_char :: "char \<Rightarrow> char" where
  "upper_char c = (if is_lower c then char_of ((of_char c :: nat) - 32) else c)"

definition lower :: "string \<Rightarrow> string" where
  "lower s = map lower_char s"

text \<open>
  \<open>str.title\<close>: a cased character is upper-cased when the character before it is not
  cased (or it is the first), lower-cased otherwise.
\<close>

fun title_from :: "bool \<Rightarrow> string \<Rightarrow> string" where
  "title_from prev_cased [] = []"
| "title_from prev_cased (c # cs) =
     (if is_upper c \<or> is_lower c
      then (if prev_cased then lower_char c else upper_char c) # title_from True cs
      else c # title_from False cs)"

definition title :: "string \<Rightarrow> string" where
  "title s = title_from False s"

text \<open>\<open>sep.join(xs)\<close>.\<close>

fun join :: "string \<Rightarrow> string list \<Rightarrow> string" where
  "join sep [] = []"
| "join sep [x] = x"
| "join sep (x # y # ys) = x @ sep @ join sep (y # ys)"

text \<open>Decimal rendering of a non-negative integer (\<open>f"{n}"\<close>) and of \<open>%H\<close>, \<open>%M\<close>, \<open>%S\<close>.\<close>

definition digit_char :: "nat \<Rightarrow> char" where
  "digit_char d = char_of (48 + d)"

fun str_nat :: "nat \<Rightarrow> string" where
  "str_nat n = (if n < 10 then [digit_char n] else str_nat (n div 10) @ [digit_char (n mod 10)])"

declare str_nat.simps [simp del]

definition zfill2 :: "string \<Rightarrow> string" where
  "zfill2 s = replicate (2 - length s) (CHR ''0'') @ s"

subsection \<open>Configuration constants\<close>

definition UPDATE_PERIOD :: nat where "UPDATE_PERIOD = 30"
definition WORK_HOURS_START :: nat where "WORK_HOURS_START = 8"
definition WORK_HOURS_END :: nat where "WORK_HOURS_END = 17"
definition APP_NAME :: string where "APP_NAME = ''Keep Alive''"
definition KEEP_ALIVE_KEY :: string where "KEEP_ALIVE_KEY = ''scrolllock''"

type_synonym rgba = "nat \<times> nat \<times> nat \<times> nat"

definition COLORS :: "(string \<times> rgba) list" where
  "COLORS = [(''active'', (34, 139, 34, 255)),
             (''paused'', (255, 140, 0, 255)),
             (''stopped'', (128, 128, 128, 255))]"

definition SKIP_INTERFACES :: "string list" where
  "SKIP_INTERFACES =
     [''lo'', ''wifi'', ''wlan'', ''wireless'', ''bluetooth'', ''local area connection'']"

definition ETHERNET_PATTERNS :: "string list" where
  "ETHERNET_PATTERNS = [''ethernet'', ''eth'', ''en'']"

subsection \<open>The platform: one reading of the clock, the battery and the network\<close>

text \<open>
  \<open>datetime.now()\<close>: only the fields the program reads.  Python keeps
  \<open>hour < 24\<close>, \<open>minute < 60\<close>, \<open>second < 60\<close>.
\<close>

record datetime =
  hour :: nat
  minute :: nat
  second :: nat

definition valid_datetime :: "datetime \<Rightarrow> bool" where
  "valid_datetime t = (hour t < 24 \<and> minute t < 60 \<and> second t < 60)"

text \<open>\<open>strftime('%H:%M:%S')\<close>.\<close>

definition strftime_HMS :: "datetime \<Rightarrow> string" where
  "strftime_HMS t =
     zfill2 (str_nat (hour t)) @ '':'' @ zfill2 (str_nat (minute t)) @ '':'' @
     zfill2 (str_nat (second t))"

text \<open>An exception, with the text \<open>str(e)\<close> gives.\<close>

datatype exn = Exception string

text \<open>
  \<open>psutil.sensors_battery()\<close> returns \<open>None\<close> or a tuple whose \<open>power_plugged\<close> field the
  program returns; \<open>percent\<close> is only read by the menu text.
\<close>

record sbattery =
  percent :: nat
  power_plugged :: bool

text \<open>\<open>psutil.net_if_stats()\<close> values and \<open>psutil.net_if_addrs()\<close> list entries.\<close>

record snicstats =
  isup :: bool

record snicaddr =
  family :: int
  address :: string

text \<open>
  A Python dict is an association list in insertion order; \<open>d[k]\<close> and \<open>k in d\<close> read it
  through \<open>map_of\<close>, iteration runs over the keys in order.
\<close>

type_synonym net_stats = "(string \<times> snicstats) list"
type_synonym net_addrs = "(string \<times> snicaddr list) list"

record env =
  now :: datetime
  sensors_battery :: "exn + sbattery option"
  net_if_stats :: "exn + net_stats"
  net_if_addrs :: "exn + net_addrs"

subsection \<open>\<open>SystemConditions\<close>\<close>

definition is_work_hours :: "env \<Rightarrow> bool" where
  "is_work_hours e =
     (let current_hour = hour (now e)
      in WORK_HOURS_START \<le> current_hour \<and> current_hour < WORK_HOURS_END)"

definition is_on_ac_power :: "env \<Rightarrow> bool" where
  "is_on_ac_power e =
     (case sensors_battery e of
        Inl ex \<Rightarrow> True
      | Inr None \<Rightarrow> True
      | Inr (Some battery) \<Rightarrow> power_plugged battery)"

text \<open>
  The private helpers (\<open>_should_skip_interface\<close>, \<open>_is_ethernet_interface\<close>,
  \<open>_interface_has_valid_connection\<close>, and later \<open>_log_skip_reason\<close>, \<open>_get_icon_status\<close>)
  are named here without the leading underscore.
\<close>

definition should_skip_interface :: "string \<Rightarrow> bool" where
  "should_skip_interface interface_name =
     (let name_lower = lower interface_name
      in list_ex (\<lambda>pattern. str_contains pattern name_lower) SKIP_INTERFACES)"

definition is_ethernet_interface :: "string \<Rightarrow> bool" where
  "is_ethernet_interface interface_name =
     (let name_lower = lower interface_name
      in list_ex (\<lambda>pattern. startswith name_lower pattern \<or> str_contains pattern name_lower)
           ETHERNET_PATTERNS)"

text \<open>The test of one address in the loop of \<open>_interface_has_valid_connection\<close>.\<close>

definition valid_ipv4 :: "snicaddr \<Rightarrow> bool" where
  "valid_ipv4 addr =
     (family addr = 2 \<and> address addr \<noteq> [] \<and>
      \<not> startswith (address addr) ''127.'' \<and>
      \<not> startswith (address addr) ''169.254.'' \<and>
      address addr \<noteq> ''0.0.0.0'')"

text \<open>
  \<open>net_stats[interface_name]\<close> raises \<open>KeyError\<close> for a missing key: the \<open>Inl\<close> branch.
\<close>

definition interface_has_valid_connection ::
  "string \<Rightarrow> net_stats \<Rightarrow> net_addrs \<Rightarrow> exn + bool" where
  "interface_has_valid_connection interface_name stats addrs =
     (case map_of stats interface_name of
        None \<Rightarrow> Inl (Exception interface_name)
      | Some if_stats \<Rightarrow>
          if \<not> isup if_stats then Inr False
          else (case map_of addrs interface_name of
                  None \<Rightarrow> Inr False
                | Some as \<Rightarrow> Inr (list_ex valid_ipv4 as)))"

text \<open>The \<open>for interface_name in net_stats\<close> loop, over the keys still to visit.\<close>

fun scan_interfaces :: "string list \<Rightarrow> net_stats \<Rightarrow> net_addrs \<Rightarrow> exn + bool" where
  "scan_interfaces [] stats addrs = Inr False"
| "scan_interfaces (interface_name # rest) stats addrs =
     (if should_skip_interface interface_name then scan_interfaces rest stats addrs
      else if is_ethernet_interface interface_name then
        (case interface_has_valid_connection interface_name stats addrs of
           Inl ex \<Rightarrow> Inl ex
         | Inr True \<Rightarrow> Inr True
         | Inr False \<Rightarrow> scan_interfaces rest stats addrs)
      else scan_interfaces rest stats addrs)"

text \<open>The body of the \<open>try\<close>: both queries, then the loop.\<close>

definition wired_ethernet_try :: "env \<Rightarrow> exn + bool" where
  "wired_ethernet_try e =
     (case net_if_stats e of
        Inl ex \<Rightarrow> Inl ex
      | Inr stats \<Rightarrow>
          (case net_if_addrs e of
             Inl ex \<Rightarrow> Inl ex
           | Inr addrs \<Rightarrow> scan_interfaces (map fst stats) stats addrs))"

text \<open>
  \<open>has_wired_ethernet_connection\<close>: the result and standard output after the call.  The
  \<open>except\<close> branch prints the error and answers \<open>False\<close>.
\<close>

definition has_wired_ethernet_connection :: "env \<Rightarrow> string list \<Rightarrow> bool \<times> string list" where
  "has_wired_ethernet_connection e out =
     (case wired_ethernet_try e of
        Inl (Exception msg) \<Rightarrow> (False, out @ [''Error checking ethernet connection: '' @ msg])
      | Inr b \<Rightarrow> (b, out))"

subsection \<open>\<open>KeepAliveApp\<close>: conditions and status\<close>

text \<open>
  \<open>a and b and c\<close> evaluates left to right and stops at the first false operand, so the
  network is only queried (and its error only printed) when the first two hold.
\<close>

definition all_conditions_met :: "env \<Rightarrow> string list \<Rightarrow> bool \<times> string list" where
  "all_conditions_met e out =
     (if is_work_hours e then
        (if is_on_ac_power e then has_wired_ethernet_connection e out else (False, out))
      else (False, out))"

definition get_failed_conditions :: "env \<Rightarrow> string list \<Rightarrow> string list \<times> string list" where
  "get_failed_conditions e out =
     (let reasons = [];
          reasons = (if \<not> is_work_hours e then reasons @ [''Outside Work Hours''] else reasons);
          reasons = (if \<not> is_on_ac_power e then reasons @ [''On Battery''] else reasons);
          (eth, out') = has_wired_ethernet_connection e out;
          reasons = (if \<not> eth then reasons @ [''No Ethernet''] else reasons)
      in (reasons, out'))"

text \<open>
  The state of the program: the three fields of \<open>KeepAliveApp\<close>, and what the program does
  to the world around it.  A thread is named by its number in order of creation;
  \<open>loops\<close> holds the threads running \<open>keep_alive_loop\<close> that have not returned.
  The tray icon is its fill colour and its title (the menu is the same structure of
  callbacks at every refresh).
\<close>

record tray_icon =
  icon_image :: rgba
  icon_title :: string

record app =
  running :: bool
  thread :: "nat option"
  icon :: "tray_icon option"
  stdout :: "string list"
  key_presses :: "string list"
  loops :: "nat list"
  threads_created :: nat

text \<open>\<open>KeepAliveApp()\<close> at start-up.\<close>

definition init_app :: app where
  "init_app = \<lparr>running = False, thread = None, icon = None, stdout = [],
               key_presses = [], loops = [], threads_created = 0\<rparr>"

text \<open>\<open>create_icon_image\<close> draws a circle filled with \<open>COLORS.get(status, COLORS['stopped'])\<close>.\<close>

definition create_icon_image :: "string \<Rightarrow> rgba" where
  "create_icon_image status =
     (case map_of COLORS status of
        Some color \<Rightarrow> color
      | None \<Rightarrow> the (map_of COLORS ''stopped''))"

definition get_icon_status :: "env \<Rightarrow> app \<Rightarrow> (string \<times> string) \<times> string list" where
  "get_icon_status e s =
     (if \<not> running s then ((''stopped'', ''Stopped''), stdout s)
      else (case all_conditions_met e (stdout s) of
              (True, out) \<Rightarrow> ((''active'', ''Running (Active)''), out)
            | (False, out) \<Rightarrow>
                (case get_failed_conditions e out of
                   (failed_conditions, out') \<Rightarrow>
                     ((''paused'', ''Paused ('' @ join '', '' failed_conditions @ '')''), out'))))"

definition update_icon :: "env \<Rightarrow> app \<Rightarrow> app" where
  "update_icon e s =
     (case icon s of
        None \<Rightarrow> s
      | Some ic \<Rightarrow>
          (case get_icon_status e s of
             ((status, title_text), out) \<Rightarrow>
               s\<lparr>icon := Some (ic\<lparr>icon_image := create_icon_image status,
                                 icon_title := APP_NAME @ '' - '' @ title_text\<rparr>),
                 stdout := out\<rparr>))"

subsection \<open>\<open>KeepAliveApp\<close>: the loop\<close>

text \<open>\<open>simulate_key_press\<close>: one call of the platform's key simulation, which returns nothing.\<close>

definition simulate_key_press :: "app \<Rightarrow> app" where
  "simulate_key_press s = s\<lparr>key_presses := key_presses s @ [KEEP_ALIVE_KEY]\<rparr>"

definition log_skip_reason :: "env \<Rightarrow> string list \<Rightarrow> string list" where
  "log_skip_reason e out =
     (let current_time = strftime_HMS (now e)
      in if \<not> is_work_hours e then
           out @ [''Keep-alive: Outside work hours ('' @ str_nat WORK_HOURS_START @ '':00-'' @
                  str_nat WORK_HOURS_END @ '':00), skipping at '' @ current_time]
         else if \<not> is_on_ac_power e then
           out @ [''Keep-alive: Running on battery power, skipping at '' @ current_time]
         else (case has_wired_ethernet_connection e out of
                 (False, out') \<Rightarrow>
                   out' @ [''Keep-alive: No wired ethernet connection, skipping at '' @
                           current_time]
               | (True, out') \<Rightarrow> out'))"

text \<open>The body of the \<open>while\<close> loop up to the sleep: one tick.\<close>

definition loop_body :: "env \<Rightarrow> app \<Rightarrow> app" where
  "loop_body e s =
     update_icon e
       (case all_conditions_met e (stdout s) of
          (True, out) \<Rightarrow>
            (simulate_key_press s)
              \<lparr>stdout := out @ [''Keep-alive: '' @ title KEEP_ALIVE_KEY @ '' key pressed at '' @
                                strftime_HMS (now e)]\<rparr>
        | (False, out) \<Rightarrow> s\<lparr>stdout := log_skip_reason e out\<rparr>)"

text \<open>
  One pass of loop thread \<open>tid\<close> through \<open>while self.running\<close>: the thread returns when
  the flag is off (the test of the \<open>while\<close> and the \<open>break\<close> under it read the same
  flag), and runs one tick and sleeps otherwise.  A thread that has returned does
  nothing.  A pass is one event of a run: start, stop and the passes of the loop
  threads are interleaved, not overlapped.
\<close>

definition keep_alive_loop_iter :: "nat \<Rightarrow> env \<Rightarrow> app \<Rightarrow> app" where
  "keep_alive_loop_iter tid e s =
     (if tid \<notin> set (loops s) then s
      else if \<not> running s then s\<lparr>loops := removeAll tid (loops s)\<rparr>
      else loop_body e s)"

subsection \<open>\<open>KeepAliveApp\<close>: start and stop\<close>

definition start_keep_alive :: "env \<Rightarrow> app \<Rightarrow> app" where
  "start_keep_alive e s =
     (if \<not> running s then
        update_icon e
          (s\<lparr>running := True,
             thread := Some (threads_created s),
             loops := loops s @ [threads_created s],
             threads_created := Suc (threads_created s),
             stdout := stdout s @ [''Keep-alive started'']\<rparr>)
      else s)"

text \<open>
  \<open>thread.join(timeout=1)\<close> returns when the thread has returned or after one second.
  The loop thread returns only at its loop test, which it reaches after a sleep of
  \<open>UPDATE_PERIOD\<close> seconds; \<open>joined\<close> says whether it got there within the second.
\<close>

definition thread_join :: "bool \<Rightarrow> nat \<Rightarrow> app \<Rightarrow> app" where
  "thread_join joined tid s =
     (if joined \<and> \<not> running s then s\<lparr>loops := removeAll tid (loops s)\<rparr> else s)"

definition stop_keep_alive :: "bool \<Rightarrow> env \<Rightarrow> app \<Rightarrow> app" where
  "stop_keep_alive joined e s =
     (if running s then
        (let s1 = s\<lparr>running := False\<rparr>;
             s2 = (case thread s1 of None \<Rightarrow> s1 | Some tid \<Rightarrow> thread_join joined tid s1);
             s3 = s2\<lparr>stdout := stdout s2 @ [''Keep-alive stopped'']\<rparr>
         in update_icon e s3)
      else s)"

text \<open>
  What can happen to a controller: a menu action, or a loop thread waking from its
  sleep.  A run is a list of such events, each with the reading of the platform at
  that moment.
\<close>

datatype event = Start | Stop bool | Wake nat

fun step :: "app \<Rightarrow> env \<times> event \<Rightarrow> app" where
  "step s (e, Start) = start_keep_alive e s"
| "step s (e, Stop joined) = stop_keep_alive joined e s"
| "step s (e, Wake tid) = keep_alive_loop_iter tid e s"

definition run_events :: "(env \<times> event) list \<Rightarrow> app \<Rightarrow> app" where
  "run_events evs s = foldl step s evs"

subsection \<open>The invariant of the controller\<close>

text \<open>
  The controller runs exactly when one loop thread exists, and there are never two.
\<close>

definition loop_invariant :: "app \<Rightarrow> bool" where
  "loop_invariant s = ((running s \<longleftrightarrow> length (loops s) = 1) \<and> length (loops s) \<le> 1)"

text \<open>
  The same with the thread named: while running, the only loop thread is the one the
  \<open>thread\<close> field holds.
\<close>

definition one_loop :: "app \<Rightarrow> bool" where
  "one_loop s =
     (if running s then (case thread s of Some tid \<Rightarrow> loops s = [tid] | None \<Rightarrow> False)
      else loops s = [])"

text \<open>
  A run in which every \<open>join\<close> of \<open>stop_keep_alive\<close> returned because the loop thread
  had returned, none because the second was over.
\<close>

definition joins_succeed :: "(env \<times> event) list \<Rightarrow> bool" where
  "joins_succeed evs = list_all (\<lambda>ev. snd ev \<noteq> Stop False) evs"

subsection \<open>Readings of the platform used as examples\<close>

text \<open>
  A desktop at 09:30:05 with a loopback, a wireless and a wired interface, all up and
  with addresses; the same machine with the wired interface holding only a link-local
  address; and a machine whose network enumeration raises.
\<close>

definition office_stats :: net_stats where
  "office_stats = [(''lo'', \<lparr>isup = True\<rparr>), (''wlan0'', \<lparr>isup = True\<rparr>),
                   (''eth0'', \<lparr>isup = True\<rparr>)]"

definition office_addrs :: net_addrs where
  "office_addrs =
     [(''lo'', [\<lparr>family = 2, address = ''127.0.0.1''\<rparr>]),
      (''wlan0'', [\<lparr>family = 2, address = ''10.0.0.7''\<rparr>]),
      (''eth0'', [\<lparr>family = 17, address = ''aa:bb:cc:dd:ee:ff''\<rparr>,
                  \<lparr>family = 2, address = ''192.168.1.5''\<rparr>])]"

definition env_office :: env where
  "env_office = \<lparr>now = \<lparr>hour = 9, minute = 30, second = 5\<rparr>,
                  sensors_battery = Inr None,
                  net_if_stats = Inr office_stats,
                  net_if_addrs = Inr office_addrs\<rparr>"

definition unplugged_addrs :: net_addrs where
  "unplugged_addrs =
     [(''lo'', [\<lparr>family = 2, address = ''127.0.0.1''\<rparr>]),
      (''wlan0'', [\<lparr>family = 2, address = ''10.0.0.7''\<rparr>]),
      (''eth0'', [\<lparr>family = 2, address = ''169.254.1.1''\<rparr>])]"

definition env_unplugged :: env where
  "env_unplugged = env_office\<lparr>net_if_addrs := Inr unplugged_addrs\<rparr>"

definition env_net_error :: env where
  "env_net_error = env_office\<lparr>net_if_stats := Inl (Exception ''access denied'')\<rparr>"

definition env_battery :: env where
  "env_battery =
     env_office\<lparr>sensors_battery := Inr (Some \<lparr>percent = 40, power_plugged = False\<rparr>)\<rparr>"

text \<open>The machine of \<open>env_net_error\<close> late in the evening.\<close>

definition env_night :: env where
  "env_night = env_net_error\<lparr>now := \<lparr>hour = 23, minute = 59, second = 7\<rparr>\<rparr>"

subsection \<open>Lines of the log\<close>

definition is_keep_alive_line :: "string \<Rightarrow> bool" where
  "is_keep_alive_line l = startswith l ''Keep-alive:''"

definition is_error_line :: "string \<Rightarrow> bool" where
  "is_error_line l = startswith l ''Error checking ethernet connection: ''"

text \<open>The shape \<open>HH:MM:SS\<close>.\<close>

definition is_digit :: "char \<Rightarrow> bool" where
  "is_digit c = (c \<in> set ''0123456789'')"

definition is_hms :: "string \<Rightarrow> bool" where
  "is_hms t =
     (case t of
        [h1, h2, c1, m1, m2, c2, s1, s2] \<Rightarrow>
          is_digit h1 \<and> is_digit h2 \<and> c1 = CHR '':'' \<and> is_digit m1 \<and> is_digit m2 \<and>
          c2 = CHR '':'' \<and> is_digit s1 \<and> is_digit s2
      | _ \<Rightarrow> False)"

section \<open>Properties\<close>

subsection \<open>String operations against the library's notions\<close>

lemma startswith_prefix: "startswith s p \<longleftrightarrow> prefix p s"
  by (induction s p rule: startswith.induct) auto

lemma str_contains_sublist: "str_contains p s \<longleftrightarrow> sublist p s"
  by (induction s) (auto simp: startswith_prefix sublist_Cons_right)

lemma title_key: "title KEEP_ALIVE_KEY = ''Scrolllock''"
  by code_simp

lemma str_work_hours: "str_nat WORK_HOURS_START = ''8''" "str_nat WORK_HOURS_END = ''17''"
  by code_simp+

lemma lower_examples:
  "lower ''lo'' = ''lo''" "lower ''wlan0'' = ''wlan0''" "lower ''eth0'' = ''eth0''"
  by code_simp+

subsection \<open>The interface scan\<close>

lemma valid_conn:
  "map_of stats n = Some st \<Longrightarrow>
   interface_has_valid_connection n stats addrs =
     Inr (isup st \<and> (\<exists>as. map_of addrs n = Some as \<and> (\<exists>a \<in> set as. valid_ipv4 a)))"
  by (auto simp: interface_has_valid_connection_def list_ex_iff split: option.splits)

lemma key_lookup: "n \<in> set (map fst stats) \<Longrightarrow> \<exists>st. map_of stats n = Some st"
proof -
  assume "n \<in> set (map fst stats)"
  then have "n \<in> fst ` set stats" by simp
  then show ?thesis by (metis domD dom_map_of_conv_image_fst)
qed

lemma valid_conn_key:
  assumes "n \<in> set (map fst stats)"
  shows "(interface_has_valid_connection n stats addrs = Inr True) =
        ((\<exists>st. map_of stats n = Some st \<and> isup st) \<and>
         (\<exists>as. map_of addrs n = Some as \<and> (\<exists>a \<in> set as. valid_ipv4 a)))"
proof -
  obtain st where st: "map_of stats n = Some st"
    using key_lookup [OF assms] by blast
  show ?thesis by (simp add: valid_conn [OF st] st)
qed

text \<open>Over keys of the dict the loop raises nothing and is an existence test.\<close>

lemma scan_keys:
  "set names \<subseteq> fst ` set stats \<Longrightarrow>
   scan_interfaces names stats addrs =
     Inr (\<exists>n \<in> set names. \<not> should_skip_interface n \<and> is_ethernet_interface n \<and>
            interface_has_valid_connection n stats addrs = Inr True)"
proof (induction names)
  case Nil
  then show ?case by simp
next
  case (Cons n names)
  then have "n \<in> fst ` set stats" by simp
  then obtain st where st: "map_of stats n = Some st"
    by (metis domD dom_map_of_conv_image_fst)
  from Cons have IH: "scan_interfaces names stats addrs =
      Inr (\<exists>n \<in> set names. \<not> should_skip_interface n \<and> is_ethernet_interface n \<and>
             interface_has_valid_connection n stats addrs = Inr True)"
    by simp
  obtain b where b: "interface_has_valid_connection n stats addrs = Inr b"
    using valid_conn [OF st] by blast
  show ?case
    by (cases b) (auto simp: IH b)
qed

lemma wired_try_ok:
  "net_if_stats e = Inr stats \<Longrightarrow> net_if_addrs e = Inr addrs \<Longrightarrow>
   wired_ethernet_try e =
     Inr (\<exists>n \<in> set (map fst stats). \<not> should_skip_interface n \<and> is_ethernet_interface n \<and>
            interface_has_valid_connection n stats addrs = Inr True)"
  using scan_keys [of "map fst stats" stats addrs] by (simp add: wired_ethernet_try_def)

lemma has_wired_fst:
  "fst (has_wired_ethernet_connection e out) = (wired_ethernet_try e = Inr True)"
  by (auto simp: has_wired_ethernet_connection_def split: sum.splits exn.splits)

lemma has_wired_fst_indep:
  "fst (has_wired_ethernet_connection e out) = fst (has_wired_ethernet_connection e out')"
  by (simp add: has_wired_fst)

subsection \<open>The conditions at the example readings\<close>

lemma office_conditions:
  "is_work_hours env_office" "is_on_ac_power env_office"
  "fst (has_wired_ethernet_connection env_office [])"
proof -
  show "is_work_hours env_office"
    by (simp add: is_work_hours_def env_office_def WORK_HOURS_START_def WORK_HOURS_END_def)
  show "is_on_ac_power env_office"
    by (simp add: is_on_ac_power_def env_office_def)
  have "wired_ethernet_try env_office = Inr True"
    by (simp add: wired_ethernet_try_def env_office_def office_stats_def office_addrs_def
        should_skip_interface_def is_ethernet_interface_def SKIP_INTERFACES_def
        ETHERNET_PATTERNS_def lower_examples interface_has_valid_connection_def valid_ipv4_def)
  then show "fst (has_wired_ethernet_connection env_office [])"
    by (simp add: has_wired_fst)
qed

lemma battery_conditions:
  "is_work_hours env_battery" "\<not> is_on_ac_power env_battery"
  by (simp_all add: is_work_hours_def is_on_ac_power_def env_battery_def env_office_def
      WORK_HOURS_START_def WORK_HOURS_END_def)

lemma office_time:
  "strftime_HMS (now env_office) = ''09:30:05''" "strftime_HMS (now env_battery) = ''09:30:05''"
  by code_simp+

lemma night_facts:
  "\<not> is_work_hours env_night" "strftime_HMS (now env_night) = ''23:59:07''"
  "valid_datetime (now env_night)"
proof -
  show "\<not> is_work_hours env_night"
    by (simp add: is_work_hours_def env_night_def WORK_HOURS_START_def WORK_HOURS_END_def)
  show "strftime_HMS (now env_night) = ''23:59:07''" by code_simp
  show "valid_datetime (now env_night)" by (simp add: valid_datetime_def env_night_def)
qed

lemma night_conditions:
  "is_on_ac_power env_night" "\<not> fst (has_wired_ethernet_connection env_night out)"
  by (simp_all add: is_on_ac_power_def has_wired_fst wired_ethernet_try_def env_night_def
      env_net_error_def env_office_def)

subsection \<open>Wired ethernet\<close>

text \<open>
  C1.  When the enumeration succeeds, \<open>has_wired_ethernet_connection\<close> answers true exactly
  when some interface of \<open>net_if_stats\<close> has a lower-cased name that contains no skip
  pattern and starts with or contains an ethernet pattern, is up, and has an IPv4
  address (family 2) that is non-empty, does not start with \<open>127.\<close> or \<open>169.254.\<close> and is
  not \<open>0.0.0.0\<close>.  An interface whose name matches a skip pattern never counts, whatever
  its state and addresses.
\<close>

theorem has_wired_ethernet_iff:
  assumes "net_if_stats e = Inr stats" and "net_if_addrs e = Inr addrs"
  shows "(fst (has_wired_ethernet_connection e out) \<longleftrightarrow>
    (\<exists>name \<in> set (map fst stats).
       \<not> (\<exists>p \<in> set [''lo'', ''wifi'', ''wlan'', ''wireless'', ''bluetooth'',
                     ''local area connection''].
            str_contains p (lower name)) \<and>
       (\<exists>p \<in> set [''ethernet'', ''eth'', ''en''].
            startswith (lower name) p \<or> str_contains p (lower name)) \<and>
       (\<exists>st. map_of stats name = Some st \<and> isup st) \<and>
       (\<exists>as. map_of addrs name = Some as \<and>
          (\<exists>a \<in> set as. family a = 2 \<and> address a \<noteq> [] \<and>
             \<not> startswith (address a) ''127.'' \<and>
             \<not> startswith (address a) ''169.254.'' \<and>
             address a \<noteq> ''0.0.0.0'')))) \<and>
    (\<forall>name rest. should_skip_interface name \<longrightarrow>
       scan_interfaces (name # rest) stats addrs = scan_interfaces rest stats addrs)"
proof -
  have "fst (has_wired_ethernet_connection e out) \<longleftrightarrow>
        (\<exists>n \<in> set (map fst stats). \<not> should_skip_interface n \<and> is_ethernet_interface n \<and>
            interface_has_valid_connection n stats addrs = Inr True)"
    using wired_try_ok [OF assms] by (simp add: has_wired_fst)
  also have "\<dots> \<longleftrightarrow>
        (\<exists>n \<in> set (map fst stats). \<not> should_skip_interface n \<and> is_ethernet_interface n \<and>
            (\<exists>st. map_of stats n = Some st \<and> isup st) \<and>
            (\<exists>as. map_of addrs n = Some as \<and> (\<exists>a \<in> set as. valid_ipv4 a)))"
    by (rule bex_cong [OF refl]) (simp add: valid_conn_key)
  finally have main: "fst (has_wired_ethernet_connection e out) \<longleftrightarrow>
        (\<exists>n \<in> set (map fst stats). \<not> should_skip_interface n \<and> is_ethernet_interface n \<and>
            (\<exists>st. map_of stats n = Some st \<and> isup st) \<and>
            (\<exists>as. map_of addrs n = Some as \<and> (\<exists>a \<in> set as. valid_ipv4 a)))" .
  have skip: "\<forall>name rest. should_skip_interface name \<longrightarrow>
       scan_interfaces (name # rest) stats addrs = scan_interfaces rest stats addrs"
    by simp
  from main have "fst (has_wired_ethernet_connection e out) \<longleftrightarrow>
    (\<exists>name \<in> set (map fst stats).
       \<not> (\<exists>p \<in> set [''lo'', ''wifi'', ''wlan'', ''wireless'', ''bluetooth'',
                     ''local area connection''].
            str_contains p (lower name)) \<and>
       (\<exists>p \<in> set [''ethernet'', ''eth'', ''en''].
            startswith (lower name) p \<or> str_contains p (lower name)) \<and>
       (\<exists>st. map_of stats name = Some st \<and> isup st) \<and>
       (\<exists>as. map_of addrs name = Some as \<and>
          (\<exists>a \<in> set as. family a = 2 \<and> address a \<noteq> [] \<and>
             \<not> startswith (address a) ''127.'' \<and>
             \<not> startswith (address a) ''169.254.'' \<and>
             address a \<noteq> ''0.0.0.0'')))"
    unfolding should_skip_interface_def is_ethernet_interface_def valid_ipv4_def
      SKIP_INTERFACES_def ETHERNET_PATTERNS_def Let_def list_ex_iff .
  with skip show ?thesis by blast
qed

theorem has_wired_ethernet_iff_witness:
  "net_if_stats env_office = Inr office_stats \<and> net_if_addrs env_office = Inr office_addrs \<and>
   fst (has_wired_ethernet_connection env_office []) \<and>
   \<not> fst (has_wired_ethernet_connection env_unplugged []) \<and>
   should_skip_interface ''wlan0'' \<and>
   scan_interfaces [''wlan0''] office_stats office_addrs = Inr False"
proof -
  have w: "should_skip_interface ''wlan0''"
    by (simp add: should_skip_interface_def SKIP_INTERFACES_def lower_examples)
  have s: "net_if_stats env_office = Inr office_stats"
    and a: "net_if_addrs env_office = Inr office_addrs"
    by (simp_all add: env_office_def)
  have s': "net_if_stats env_unplugged = Inr office_stats"
    and a': "net_if_addrs env_unplugged = Inr unplugged_addrs"
    by (simp_all add: env_unplugged_def env_office_def)
  show ?thesis
    using has_wired_ethernet_iff [OF s a, of "[]"] has_wired_ethernet_iff [OF s' a', of "[]"]
      w
    by (simp add: s a office_stats_def office_addrs_def unplugged_addrs_def lower_examples)
qed

lemma has_wired_raise:
  "wired_ethernet_try e = Inl (Exception msg) \<Longrightarrow>
   has_wired_ethernet_connection e out =
     (False, out @ [''Error checking ethernet connection: '' @ msg])"
  by (simp add: has_wired_ethernet_connection_def)

lemma has_wired_return:
  "wired_ethernet_try e = Inr b \<Longrightarrow> has_wired_ethernet_connection e out = (b, out)"
  by (simp add: has_wired_ethernet_connection_def)

text \<open>
  C6.  \<open>has_wired_ethernet_connection\<close> fails closed: it answers false when
  \<open>net_if_stats\<close> raises, when \<open>net_if_addrs\<close> raises, and when the enumeration succeeds
  but no interface passes the skip test, the ethernet test and the connection test.
\<close>

theorem has_wired_ethernet_fail_closed:
  "\<not> fst (has_wired_ethernet_connection (e\<lparr>net_if_stats := Inl ex\<rparr>) out) \<and>
   \<not> fst (has_wired_ethernet_connection (e\<lparr>net_if_stats := Inr stats, net_if_addrs := Inl ex\<rparr>) out) \<and>
   ((\<forall>name \<in> set (map fst stats).
        should_skip_interface name \<or> \<not> is_ethernet_interface name \<or>
        interface_has_valid_connection name stats addrs \<noteq> Inr True) \<longrightarrow>
    \<not> fst (has_wired_ethernet_connection
              (e\<lparr>net_if_stats := Inr stats, net_if_addrs := Inr addrs\<rparr>) out))"
proof (intro conjI impI)
  show "\<not> fst (has_wired_ethernet_connection (e\<lparr>net_if_stats := Inl ex\<rparr>) out)"
    by (simp add: has_wired_fst wired_ethernet_try_def)
  show "\<not> fst (has_wired_ethernet_connection
                 (e\<lparr>net_if_stats := Inr stats, net_if_addrs := Inl ex\<rparr>) out)"
    by (simp add: has_wired_fst wired_ethernet_try_def)
  assume none: "\<forall>name \<in> set (map fst stats).
        should_skip_interface name \<or> \<not> is_ethernet_interface name \<or>
        interface_has_valid_connection name stats addrs \<noteq> Inr True"
  let ?e = "e\<lparr>net_if_stats := Inr stats, net_if_addrs := Inr addrs\<rparr>"
  have "wired_ethernet_try ?e =
     Inr (\<exists>n \<in> set (map fst stats). \<not> should_skip_interface n \<and> is_ethernet_interface n \<and>
            interface_has_valid_connection n stats addrs = Inr True)"
    by (rule wired_try_ok) simp_all
  with none have "wired_ethernet_try ?e = Inr False" by auto
  then show "\<not> fst (has_wired_ethernet_connection ?e out)"
    by (simp add: has_wired_fst)
qed

theorem has_wired_ethernet_fail_closed_witness:
  "\<not> fst (has_wired_ethernet_connection env_unplugged []) \<and>
   \<not> fst (has_wired_ethernet_connection env_net_error [])"
proof -
  have lo: "should_skip_interface ''lo''" and wlan: "should_skip_interface ''wlan0''"
    by (simp_all add: should_skip_interface_def SKIP_INTERFACES_def lower_examples)
  have eth: "interface_has_valid_connection ''eth0'' office_stats unplugged_addrs = Inr False"
    by (simp add: interface_has_valid_connection_def office_stats_def unplugged_addrs_def
        valid_ipv4_def)
  have none: "\<forall>name \<in> set (map fst office_stats).
        should_skip_interface name \<or> \<not> is_ethernet_interface name \<or>
        interface_has_valid_connection name office_stats unplugged_addrs \<noteq> Inr True"
    using lo wlan eth by (simp add: office_stats_def)
  have u: "env_unplugged = env_office\<lparr>net_if_stats := Inr office_stats,
                                        net_if_addrs := Inr unplugged_addrs\<rparr>"
    by (simp add: env_unplugged_def env_office_def)
  have n: "env_net_error = env_office\<lparr>net_if_stats := Inl (Exception ''access denied'')\<rparr>"
    by (simp add: env_net_error_def)
  show ?thesis
    using has_wired_ethernet_fail_closed
      [where e = env_office and ex = "Exception ''access denied''" and out = "[]"
         and stats = office_stats and addrs = unplugged_addrs] none
    by (simp add: u n)
qed

subsection \<open>Work hours and power\<close>

text \<open>
  C4.  \<open>is_work_hours\<close> is true exactly when the local hour \<open>h\<close> satisfies
  \<open>8 \<le> h < 17\<close>: true at \<open>h = 8\<close>, false at \<open>h = 17\<close>.
\<close>

theorem is_work_hours_iff:
  "(is_work_hours e \<longleftrightarrow> 8 \<le> hour (now e) \<and> hour (now e) < 17) \<and>
   is_work_hours (e\<lparr>now := t\<lparr>hour := 8\<rparr>\<rparr>) \<and>
   \<not> is_work_hours (e\<lparr>now := t\<lparr>hour := 17\<rparr>\<rparr>)"
  by (simp add: is_work_hours_def WORK_HOURS_START_def WORK_HOURS_END_def Let_def)

text \<open>
  C5.  \<open>is_on_ac_power\<close> fails open: it answers true when the battery query reports no
  battery and when the query raises; when a battery is reported it answers the
  battery's \<open>power_plugged\<close> flag.
\<close>

theorem is_on_ac_power_fail_open:
  "is_on_ac_power (e\<lparr>sensors_battery := Inr None\<rparr>) \<and>
   is_on_ac_power (e\<lparr>sensors_battery := Inl ex\<rparr>) \<and>
   is_on_ac_power (e\<lparr>sensors_battery := Inr (Some battery)\<rparr>) = power_plugged battery"
  by (simp add: is_on_ac_power_def)

subsection \<open>Conditions, failed conditions and the icon status\<close>

lemma all_met_fst:
  "fst (all_conditions_met e out) =
     (is_work_hours e \<and> is_on_ac_power e \<and> fst (has_wired_ethernet_connection e []))"
  using has_wired_fst_indep [of e out "[]"] by (simp add: all_conditions_met_def)

lemma failed_fst:
  "fst (get_failed_conditions e out) =
     (if is_work_hours e then [] else [''Outside Work Hours'']) @
     (if is_on_ac_power e then [] else [''On Battery'']) @
     (if fst (has_wired_ethernet_connection e []) then [] else [''No Ethernet''])"
  using has_wired_fst_indep [of e out "[]"]
  by (auto simp: get_failed_conditions_def Let_def split: prod.splits)

lemma icon_status_fst:
  "fst (get_icon_status e s) =
     (if \<not> running s then (''stopped'', ''Stopped'')
      else if fst (all_conditions_met e (stdout s)) then (''active'', ''Running (Active)'')
      else (''paused'',
            ''Paused ('' @ join '', '' (fst (get_failed_conditions e (stdout s))) @ '')''))"
proof -
  obtain b out1 where a: "all_conditions_met e (stdout s) = (b, out1)" by force
  obtain f out2 where f: "get_failed_conditions e out1 = (f, out2)" by force
  have "f = fst (get_failed_conditions e (stdout s))"
    using f failed_fst [of e out1] failed_fst [of e "stdout s"] by simp
  then show ?thesis
    using a f by (cases b) (simp_all add: get_icon_status_def)
qed

text \<open>
  C9, as the program behaves.  With every condition met the list of failed conditions
  is empty, but a controller that is not running shows \<open>stopped\<close>, not \<open>active\<close>:
  \<open>_get_icon_status\<close> tests the running flag before it looks at the conditions.
\<close>

theorem stopped_with_empty_failed_list_counterexample:
  "running init_app = False \<and>
   fst (get_failed_conditions env_office (stdout init_app)) = [] \<and>
   fst (all_conditions_met env_office (stdout init_app)) = True \<and>
   fst (fst (get_icon_status env_office init_app)) = ''stopped'' \<and>
   fst (fst (get_icon_status env_office init_app)) \<noteq> ''active''"
  using office_conditions
  by (simp add: icon_status_fst failed_fst all_met_fst init_app_def)

text \<open>
  C9, amended.  For one reading of the platform, \<open>get_failed_conditions\<close> returns the empty
  list exactly when \<open>all_conditions_met\<close> returns true; its list holds one entry for each
  false condition, in the order work hours, power, ethernet.  For a running controller
  the status is \<open>active\<close> exactly when that list is empty; for a controller that is not
  running the status is \<open>stopped\<close>, whatever the list.
\<close>

theorem failed_conditions_match_all_met:
  "(fst (get_failed_conditions e out) = [] \<longleftrightarrow> fst (all_conditions_met e out)) \<and>
   fst (get_failed_conditions e out) =
     (if is_work_hours e then [] else [''Outside Work Hours'']) @
     (if is_on_ac_power e then [] else [''On Battery'']) @
     (if fst (has_wired_ethernet_connection e out) then [] else [''No Ethernet'']) \<and>
   fst (all_conditions_met e out) =
     (is_work_hours e \<and> is_on_ac_power e \<and> fst (has_wired_ethernet_connection e out)) \<and>
   (fst (fst (get_icon_status e (s\<lparr>running := True\<rparr>))) = ''active'' \<longleftrightarrow>
      fst (get_failed_conditions e (stdout s)) = []) \<and>
   fst (fst (get_icon_status e (s\<lparr>running := False\<rparr>))) = ''stopped''"
proof -
  have w: "fst (has_wired_ethernet_connection e out) = fst (has_wired_ethernet_connection e [])"
    by (rule has_wired_fst_indep)
  have 1: "fst (get_failed_conditions e out) = [] \<longleftrightarrow> fst (all_conditions_met e out)"
    by (simp add: failed_fst all_met_fst)
  have 2: "fst (get_failed_conditions e out) =
     (if is_work_hours e then [] else [''Outside Work Hours'']) @
     (if is_on_ac_power e then [] else [''On Battery'']) @
     (if fst (has_wired_ethernet_connection e out) then [] else [''No Ethernet''])"
    unfolding w by (rule failed_fst)
  have 3: "fst (all_conditions_met e out) =
     (is_work_hours e \<and> is_on_ac_power e \<and> fst (has_wired_ethernet_connection e out))"
    unfolding w by (rule all_met_fst)
  have 4: "fst (fst (get_icon_status e (s\<lparr>running := True\<rparr>))) = ''active'' \<longleftrightarrow>
      fst (get_failed_conditions e (stdout s)) = []"
    by (simp add: icon_status_fst failed_fst all_met_fst)
  have 5: "fst (fst (get_icon_status e (s\<lparr>running := False\<rparr>))) = ''stopped''"
    by (simp add: icon_status_fst)
  from 1 2 3 4 5 show ?thesis by blast
qed

theorem failed_conditions_match_all_met_witness:
  "fst (get_failed_conditions env_night []) = [''Outside Work Hours'', ''No Ethernet''] \<and>
   \<not> fst (all_conditions_met env_night []) \<and>
   fst (get_failed_conditions env_battery []) = [''On Battery''] \<and>
   fst (get_failed_conditions env_office []) = [] \<and>
   fst (all_conditions_met env_office []) \<and>
   fst (fst (get_icon_status env_office (init_app\<lparr>running := True\<rparr>))) = ''active'' \<and>
   fst (fst (get_icon_status env_office (init_app\<lparr>running := False\<rparr>))) = ''stopped''"
proof -
  have b: "fst (has_wired_ethernet_connection env_battery []) =
           fst (has_wired_ethernet_connection env_office [])"
    by (simp add: has_wired_fst wired_ethernet_try_def env_battery_def env_office_def)
  have o: "stdout init_app = []" by (simp add: init_app_def)
  show ?thesis
    using failed_conditions_match_all_met [where e = env_night and out = "[]" and s = init_app]
      failed_conditions_match_all_met [where e = env_battery and out = "[]" and s = init_app]
      failed_conditions_match_all_met [where e = env_office and out = "[]" and s = init_app]
      night_facts(1) night_conditions battery_conditions office_conditions
    by (simp add: b o)
qed

text \<open>
  C7.  The status shown: \<open>stopped\<close> when the controller is not running; \<open>active\<close> when it
  runs and all three conditions hold; \<open>paused\<close> otherwise, with a title that lists every
  failed condition, in the order work hours, power, ethernet.  \<open>update_icon\<close> puts that
  title, after the application's name, and the status colour on the tray icon.
\<close>

theorem icon_status_derivation:
  "fst (get_icon_status e (s\<lparr>running := False\<rparr>)) = (''stopped'', ''Stopped'') \<and>
   fst (get_icon_status e (s\<lparr>running := True\<rparr>)) =
     (if is_work_hours e \<and> is_on_ac_power e \<and> fst (has_wired_ethernet_connection e [])
      then (''active'', ''Running (Active)'')
      else (''paused'',
            ''Paused ('' @
            join '', '' ((if is_work_hours e then [] else [''Outside Work Hours'']) @
                        (if is_on_ac_power e then [] else [''On Battery'']) @
                        (if fst (has_wired_ethernet_connection e []) then []
                         else [''No Ethernet''])) @
            '')'')) \<and>
   map_option icon_title (icon (update_icon e (s\<lparr>icon := Some ic\<rparr>))) =
     Some (''Keep Alive - '' @ snd (fst (get_icon_status e s))) \<and>
   map_option icon_image (icon (update_icon e (s\<lparr>icon := Some ic\<rparr>))) =
     Some (create_icon_image (fst (fst (get_icon_status e s)))) \<and>
   create_icon_image ''stopped'' = (128, 128, 128, 255) \<and>
   create_icon_image ''active'' = (34, 139, 34, 255) \<and>
   create_icon_image ''paused'' = (255, 140, 0, 255)"
proof -
  have 1: "fst (get_icon_status e (s\<lparr>running := False\<rparr>)) = (''stopped'', ''Stopped'')"
    by (simp add: icon_status_fst)
  have 2: "fst (get_icon_status e (s\<lparr>running := True\<rparr>)) =
     (if is_work_hours e \<and> is_on_ac_power e \<and> fst (has_wired_ethernet_connection e [])
      then (''active'', ''Running (Active)'')
      else (''paused'',
            ''Paused ('' @
            join '', '' ((if is_work_hours e then [] else [''Outside Work Hours'']) @
                        (if is_on_ac_power e then [] else [''On Battery'']) @
                        (if fst (has_wired_ethernet_connection e []) then []
                         else [''No Ethernet''])) @
            '')''))"
    by (simp only: icon_status_fst failed_fst all_met_fst) simp
  have g: "get_icon_status e (s\<lparr>icon := Some ic\<rparr>) = get_icon_status e s"
    by (simp add: get_icon_status_def)
  obtain st ti out where r: "get_icon_status e s = ((st, ti), out)"
    by (metis prod.exhaust)
  have 3: "map_option icon_title (icon (update_icon e (s\<lparr>icon := Some ic\<rparr>))) =
     Some (''Keep Alive - '' @ snd (fst (get_icon_status e s)))"
    by (simp add: update_icon_def g r APP_NAME_def)
  have 4: "map_option icon_image (icon (update_icon e (s\<lparr>icon := Some ic\<rparr>))) =
     Some (create_icon_image (fst (fst (get_icon_status e s))))"
    by (simp add: update_icon_def g r)
  have 5: "create_icon_image ''stopped'' = (128, 128, 128, 255)"
    "create_icon_image ''active'' = (34, 139, 34, 255)"
    "create_icon_image ''paused'' = (255, 140, 0, 255)"
    by (simp_all add: create_icon_image_def COLORS_def)
  from 1 2 3 4 5 show ?thesis by blast
qed

theorem icon_status_derivation_witness:
  "fst (get_icon_status env_night (init_app\<lparr>running := True\<rparr>)) =
     (''paused'', ''Paused (Outside Work Hours, No Ethernet)'') \<and>
   fst (get_icon_status env_battery (init_app\<lparr>running := True\<rparr>)) =
     (''paused'', ''Paused (On Battery)'') \<and>
   fst (get_icon_status env_office (init_app\<lparr>running := True\<rparr>)) =
     (''active'', ''Running (Active)'') \<and>
   fst (get_icon_status env_office (init_app\<lparr>running := False\<rparr>)) = (''stopped'', ''Stopped'')"
proof -
  have b: "fst (has_wired_ethernet_connection env_battery []) =
           fst (has_wired_ethernet_connection env_office [])"
    by (simp add: has_wired_fst wired_ethernet_try_def env_battery_def env_office_def)
  show ?thesis
    using icon_status_derivation [where e = env_night and s = init_app]
      icon_status_derivation [where e = env_battery and s = init_app]
      icon_status_derivation [where e = env_office and s = init_app]
      night_facts(1) night_conditions battery_conditions office_conditions
    by (simp add: b)
qed

subsection \<open>Before the tray icon exists\<close>

text \<open>
  C10.  While the \<open>icon\<close> field is unset, \<open>update_icon\<close> changes nothing, so
  \<open>start_keep_alive\<close> sets the running flag and launches the loop, and
  \<open>stop_keep_alive\<close> clears the flag, and each prints its notice.
\<close>

theorem update_icon_without_icon:
  "update_icon e (s\<lparr>icon := None\<rparr>) = s\<lparr>icon := None\<rparr> \<and>
   start_keep_alive e (s\<lparr>icon := None, running := False\<rparr>) =
     s\<lparr>icon := None, running := True, thread := Some (threads_created s),
       loops := loops s @ [threads_created s],
       threads_created := Suc (threads_created s),
       stdout := stdout s @ [''Keep-alive started'']\<rparr> \<and>
   running (stop_keep_alive joined e (s\<lparr>icon := None, running := True\<rparr>)) = False \<and>
   icon (stop_keep_alive joined e (s\<lparr>icon := None, running := True\<rparr>)) = None \<and>
   stdout (stop_keep_alive joined e (s\<lparr>icon := None, running := True\<rparr>)) =
     stdout s @ [''Keep-alive stopped'']"
  by (simp add: update_icon_def start_keep_alive_def stop_keep_alive_def thread_join_def Let_def
      split: option.splits)

subsection \<open>What one tick of the loop prints and presses\<close>

lemma error_not_keep_alive: "is_error_line l \<Longrightarrow> \<not> is_keep_alive_line l"
  by (cases l) (auto simp: is_error_line_def is_keep_alive_line_def)

lemma filter_errors: "\<forall>l \<in> set xs. is_error_line l \<Longrightarrow> filter is_keep_alive_line xs = []"
  by (induction xs) (auto simp: error_not_keep_alive)

lemma has_wired_shape:
  "\<exists>xs. has_wired_ethernet_connection e out = (fst (has_wired_ethernet_connection e []), out @ xs) \<and>
        (\<forall>l \<in> set xs. is_error_line l) \<and>
        (fst (has_wired_ethernet_connection e []) \<longrightarrow> xs = [])"
  by (auto simp: has_wired_ethernet_connection_def is_error_line_def
           split: sum.splits exn.splits)

lemma all_met_shape:
  "\<exists>xs. all_conditions_met e out = (fst (all_conditions_met e []), out @ xs) \<and>
        (\<forall>l \<in> set xs. is_error_line l) \<and>
        (fst (all_conditions_met e []) \<longrightarrow> xs = [])"
  using has_wired_shape [of e out] has_wired_shape [of e "[]"]
  by (auto simp: all_conditions_met_def)

lemma failed_shape:
  "\<exists>xs. snd (get_failed_conditions e out) = out @ xs \<and> (\<forall>l \<in> set xs. is_error_line l)"
  using has_wired_shape [of e out]
  by (auto simp: get_failed_conditions_def Let_def split: prod.splits)

lemma icon_status_shape:
  "\<exists>xs. snd (get_icon_status e s) = stdout s @ xs \<and> (\<forall>l \<in> set xs. is_error_line l)"
proof (cases "running s")
  case False
  then show ?thesis by (simp add: get_icon_status_def)
next
  case True
  obtain xs where xs: "all_conditions_met e (stdout s) =
      (fst (all_conditions_met e []), stdout s @ xs)" "\<forall>l \<in> set xs. is_error_line l"
    using all_met_shape [of e "stdout s"] by blast
  obtain f out2 where f: "get_failed_conditions e (stdout s @ xs) = (f, out2)" by force
  obtain ys where ys: "out2 = (stdout s @ xs) @ ys" "\<forall>l \<in> set ys. is_error_line l"
    using failed_shape [of e "stdout s @ xs"] f by auto
  show ?thesis
  proof (cases "fst (all_conditions_met e [])")
    case True
    with \<open>running s\<close> xs show ?thesis by (simp add: get_icon_status_def)
  next
    case False
    have "snd (get_icon_status e s) = stdout s @ (xs @ ys)"
      using False \<open>running s\<close> xs f ys by (simp add: get_icon_status_def)
    moreover have "\<forall>l \<in> set (xs @ ys). is_error_line l" using xs ys by auto
    ultimately show ?thesis by blast
  qed
qed

lemma update_icon_shape:
  "\<exists>xs. stdout (update_icon e s) = stdout s @ xs \<and> (\<forall>l \<in> set xs. is_error_line l)"
proof (cases "icon s")
  case None
  then show ?thesis by (simp add: update_icon_def)
next
  case (Some ic)
  obtain st ti out where g: "get_icon_status e s = ((st, ti), out)"
    by (metis prod.exhaust)
  then show ?thesis
    using Some icon_status_shape [of e s] by (simp add: update_icon_def)
qed

lemma update_icon_frame:
  "running (update_icon e s) = running s" "key_presses (update_icon e s) = key_presses s"
  "loops (update_icon e s) = loops s" "thread (update_icon e s) = thread s"
  "threads_created (update_icon e s) = threads_created s"
  by (simp_all add: update_icon_def split: option.splits prod.splits)

text \<open>The line a tick prints when every condition holds.\<close>

lemma loop_body_pressed:
  assumes "fst (all_conditions_met e [])"
  shows "\<exists>xs. stdout (loop_body e s) =
            stdout s @ [''Keep-alive: Scrolllock key pressed at '' @ strftime_HMS (now e)] @ xs \<and>
          (\<forall>l \<in> set xs. is_error_line l) \<and>
          key_presses (loop_body e s) = key_presses s @ [''scrolllock'']"
proof -
  have a: "all_conditions_met e (stdout s) = (True, stdout s)"
    using all_met_shape [of e "stdout s"] assms by auto
  let ?s1 = "(simulate_key_press s)
      \<lparr>stdout := stdout s @ [''Keep-alive: '' @ title KEEP_ALIVE_KEY @ '' key pressed at '' @
                                strftime_HMS (now e)]\<rparr>"
  have b: "loop_body e s = update_icon e ?s1"
    by (simp add: loop_body_def a)
  obtain xs where xs: "stdout (update_icon e ?s1) = stdout ?s1 @ xs"
      "\<forall>l \<in> set xs. is_error_line l"
    using update_icon_shape [of e ?s1] by blast
  have "stdout (loop_body e s) =
      stdout s @ [''Keep-alive: Scrolllock key pressed at '' @ strftime_HMS (now e)] @ xs"
    using xs(1) by (simp add: b title_key)
  moreover have "key_presses (loop_body e s) = key_presses s @ [''scrolllock'']"
    by (simp add: b update_icon_frame simulate_key_press_def KEEP_ALIVE_KEY_def)
  ultimately show ?thesis using xs(2) by blast
qed

lemma log_skip_shape:
  assumes "\<not> fst (all_conditions_met e [])"
  shows "\<exists>xs. log_skip_reason e out = out @ xs @
            [if \<not> is_work_hours e
             then ''Keep-alive: Outside work hours (8:00-17:00), skipping at '' @
                  strftime_HMS (now e)
             else if \<not> is_on_ac_power e
             then ''Keep-alive: Running on battery power, skipping at '' @ strftime_HMS (now e)
             else ''Keep-alive: No wired ethernet connection, skipping at '' @
                  strftime_HMS (now e)] \<and>
          (\<forall>l \<in> set xs. is_error_line l)"
proof (cases "is_work_hours e")
  case False
  then have "log_skip_reason e out = out @ [] @
       [''Keep-alive: Outside work hours (8:00-17:00), skipping at '' @ strftime_HMS (now e)]"
    by (simp add: log_skip_reason_def str_work_hours)
  with False show ?thesis by (intro exI [of _ "[]"]) simp
next
  case wh: True
  show ?thesis
  proof (cases "is_on_ac_power e")
    case False
    with wh have "log_skip_reason e out = out @ [] @
       [''Keep-alive: Running on battery power, skipping at '' @ strftime_HMS (now e)]"
      by (simp add: log_skip_reason_def)
    with wh False show ?thesis by (intro exI [of _ "[]"]) simp
  next
    case ac: True
    with wh assms have ne: "\<not> fst (has_wired_ethernet_connection e [])"
      by (simp add: all_met_fst)
    obtain xs where xs: "has_wired_ethernet_connection e out = (False, out @ xs)"
        "\<forall>l \<in> set xs. is_error_line l"
      using has_wired_shape [of e out] ne by auto
    have "log_skip_reason e out = out @ xs @
       [''Keep-alive: No wired ethernet connection, skipping at '' @ strftime_HMS (now e)]"
      using wh ac xs(1) by (simp add: log_skip_reason_def)
    with wh ac xs(2) show ?thesis by auto
  qed
qed

lemma loop_body_skipped:
  assumes "\<not> fst (all_conditions_met e [])"
  shows "\<exists>xs ys. stdout (loop_body e s) = stdout s @ xs @
            [if \<not> is_work_hours e
             then ''Keep-alive: Outside work hours (8:00-17:00), skipping at '' @
                  strftime_HMS (now e)
             else if \<not> is_on_ac_power e
             then ''Keep-alive: Running on battery power, skipping at '' @ strftime_HMS (now e)
             else ''Keep-alive: No wired ethernet connection, skipping at '' @
                  strftime_HMS (now e)] @ ys \<and>
          (\<forall>l \<in> set xs. is_error_line l) \<and> (\<forall>l \<in> set ys. is_error_line l) \<and>
          key_presses (loop_body e s) = key_presses s"
proof -
  let ?line = "if \<not> is_work_hours e
             then ''Keep-alive: Outside work hours (8:00-17:00), skipping at '' @
                  strftime_HMS (now e)
             else if \<not> is_on_ac_power e
             then ''Keep-alive: Running on battery power, skipping at '' @ strftime_HMS (now e)
             else ''Keep-alive: No wired ethernet connection, skipping at '' @
                  strftime_HMS (now e)"
  obtain xs0 where a: "all_conditions_met e (stdout s) = (False, stdout s @ xs0)"
      and xs0: "\<forall>l \<in> set xs0. is_error_line l"
    using all_met_shape [of e "stdout s"] assms by auto
  obtain xs1 where l: "log_skip_reason e (stdout s @ xs0) = (stdout s @ xs0) @ xs1 @ [?line]"
      and xs1: "\<forall>l \<in> set xs1. is_error_line l"
    using log_skip_shape [OF assms, of "stdout s @ xs0"] by blast
  let ?s1 = "s\<lparr>stdout := log_skip_reason e (stdout s @ xs0)\<rparr>"
  have b: "loop_body e s = update_icon e ?s1"
    by (simp add: loop_body_def a)
  obtain ys where ys: "stdout (update_icon e ?s1) = stdout ?s1 @ ys"
      "\<forall>l \<in> set ys. is_error_line l"
    using update_icon_shape [of e ?s1] by blast
  have "stdout (loop_body e s) = stdout s @ (xs0 @ xs1) @ [?line] @ ys"
    using ys(1) l by (simp add: b)
  moreover have "\<forall>l \<in> set (xs0 @ xs1). is_error_line l" using xs0 xs1 by auto
  moreover have "key_presses (loop_body e s) = key_presses s"
    by (simp add: b update_icon_frame)
  ultimately show ?thesis using ys(2) by blast
qed

lemma keep_alive_line_examples:
  "is_keep_alive_line (''Keep-alive: Scrolllock key pressed at '' @ t)"
  "is_keep_alive_line (''Keep-alive: Outside work hours (8:00-17:00), skipping at '' @ t)"
  "is_keep_alive_line (''Keep-alive: Running on battery power, skipping at '' @ t)"
  "is_keep_alive_line (''Keep-alive: No wired ethernet connection, skipping at '' @ t)"
  by (simp_all add: is_keep_alive_line_def)

text \<open>
  C2.  One tick of the loop of a running controller, for one reading of the platform.
  If work hours, AC power and wired ethernet all hold, the key is pressed exactly once
  and the only \<open>Keep-alive:\<close> line printed is the press line with the time of the tick.
  Otherwise the key is not pressed and the only \<open>Keep-alive:\<close> line printed names the
  first unmet condition, in the order work hours, power, ethernet, with the time of
  the tick.  Earlier output is kept.
\<close>

theorem keep_alive_tick:
  assumes "running s" and "tid \<in> set (loops s)"
  shows "let s' = keep_alive_loop_iter tid e s;
             new = drop (length (stdout s)) (stdout s');
             t = strftime_HMS (now e)
         in take (length (stdout s)) (stdout s') = stdout s \<and>
            (if is_work_hours e \<and> is_on_ac_power e \<and> fst (has_wired_ethernet_connection e [])
             then key_presses s' = key_presses s @ [''scrolllock''] \<and>
                  filter is_keep_alive_line new = [''Keep-alive: Scrolllock key pressed at '' @ t]
             else key_presses s' = key_presses s \<and>
                  filter is_keep_alive_line new =
                    [if \<not> is_work_hours e
                     then ''Keep-alive: Outside work hours (8:00-17:00), skipping at '' @ t
                     else if \<not> is_on_ac_power e
                     then ''Keep-alive: Running on battery power, skipping at '' @ t
                     else ''Keep-alive: No wired ethernet connection, skipping at '' @ t])"
proof -
  have it: "keep_alive_loop_iter tid e s = loop_body e s"
    using assms by (simp add: keep_alive_loop_iter_def)
  show ?thesis
  proof (cases "fst (all_conditions_met e [])")
    case True
    then have c: "is_work_hours e \<and> is_on_ac_power e \<and> fst (has_wired_ethernet_connection e [])"
      by (simp add: all_met_fst)
    obtain xs where xs: "stdout (loop_body e s) =
            stdout s @ [''Keep-alive: Scrolllock key pressed at '' @ strftime_HMS (now e)] @ xs"
        "\<forall>l \<in> set xs. is_error_line l"
        "key_presses (loop_body e s) = key_presses s @ [''scrolllock'']"
      using loop_body_pressed [OF True, of s] by blast
    have "filter is_keep_alive_line xs = []" using xs(2) by (rule filter_errors)
    then show ?thesis
      using c xs(1) xs(3) keep_alive_line_examples(1) [of "strftime_HMS (now e)"]
      by (simp add: it Let_def)
  next
    case False
    then have c: "\<not> (is_work_hours e \<and> is_on_ac_power e \<and>
                     fst (has_wired_ethernet_connection e []))"
      by (simp add: all_met_fst)
    let ?line = "if \<not> is_work_hours e
             then ''Keep-alive: Outside work hours (8:00-17:00), skipping at '' @
                  strftime_HMS (now e)
             else if \<not> is_on_ac_power e
             then ''Keep-alive: Running on battery power, skipping at '' @ strftime_HMS (now e)
             else ''Keep-alive: No wired ethernet connection, skipping at '' @
                  strftime_HMS (now e)"
    obtain xs ys where xy: "stdout (loop_body e s) = stdout s @ xs @ [?line] @ ys"
        "\<forall>l \<in> set xs. is_error_line l" "\<forall>l \<in> set ys. is_error_line l"
        "key_presses (loop_body e s) = key_presses s"
      using loop_body_skipped [OF False, of s] by blast
    have f: "filter is_keep_alive_line xs = []" "filter is_keep_alive_line ys = []"
      using xy(2,3) by (simp_all add: filter_errors)
    have k: "is_keep_alive_line ?line"
      using keep_alive_line_examples [of "strftime_HMS (now e)"] by presburger
    have "filter is_keep_alive_line (xs @ [?line] @ ys) = [?line]"
      using f k by simp
    then show ?thesis
      using c xy(1) xy(4) by (simp add: it Let_def)
  qed
qed

theorem keep_alive_tick_witness:
  "running (start_keep_alive env_office init_app) \<and>
   0 \<in> set (loops (start_keep_alive env_office init_app)) \<and>
   key_presses (keep_alive_loop_iter 0 env_office (start_keep_alive env_office init_app)) =
     [''scrolllock''] \<and>
   filter is_keep_alive_line
     (drop 1 (stdout (keep_alive_loop_iter 0 env_office (start_keep_alive env_office init_app)))) =
     [''Keep-alive: Scrolllock key pressed at 09:30:05''] \<and>
   key_presses (keep_alive_loop_iter 0 env_battery (start_keep_alive env_office init_app)) = [] \<and>
   filter is_keep_alive_line
     (drop 1 (stdout (keep_alive_loop_iter 0 env_battery (start_keep_alive env_office init_app)))) =
     [''Keep-alive: Running on battery power, skipping at 09:30:05'']"
proof -
  let ?s = "start_keep_alive env_office init_app"
  have s: "?s = init_app\<lparr>running := True, thread := Some 0, loops := [0],
                          threads_created := Suc 0, stdout := [''Keep-alive started'']\<rparr>"
    by (simp add: start_keep_alive_def init_app_def update_icon_def)
  have r: "running ?s" and l: "0 \<in> set (loops ?s)"
    and n: "length (stdout ?s) = 1" and k: "key_presses ?s = []"
    unfolding s by (simp_all add: init_app_def)
  show ?thesis
    using keep_alive_tick [OF r l, of env_office] keep_alive_tick [OF r l, of env_battery]
      office_conditions battery_conditions r l
    by (simp add: Let_def n k office_time)
qed

subsection \<open>The lines of the log\<close>

lemma endswith_append: "endswith (a @ t) t"
  by (simp add: endswith_def startswith_prefix)

lemma digit_chars: "\<forall>d \<in> set [0..<10]. is_digit (digit_char d)"
  by code_simp

lemma is_digit_digit_char: "d < 10 \<Longrightarrow> is_digit (digit_char d)"
  using digit_chars by simp

lemma digit_char_0: "digit_char 0 = CHR ''0''"
  by code_simp

lemma zfill2_str_nat:
  assumes "n < 100"
  shows "zfill2 (str_nat n) = [digit_char (n div 10), digit_char (n mod 10)]"
proof (cases "n < 10")
  case True
  then have "str_nat n = [digit_char n]" by (simp add: str_nat.simps)
  with True show ?thesis by (simp add: zfill2_def digit_char_0)
next
  case False
  with assms have "n div 10 < 10" by simp
  then have "str_nat (n div 10) = [digit_char (n div 10)]" by (simp add: str_nat.simps)
  with False have "str_nat n = [digit_char (n div 10), digit_char (n mod 10)]"
    by (subst str_nat.simps) simp
  then show ?thesis by (simp add: zfill2_def)
qed

lemma two_digits:
  assumes "n < 100"
  shows "is_digit (digit_char (n div 10))" "is_digit (digit_char (n mod 10))"
proof -
  from assms have "n div 10 < 10" by simp
  then show "is_digit (digit_char (n div 10))" by (rule is_digit_digit_char)
  show "is_digit (digit_char (n mod 10))" by (rule is_digit_digit_char) simp
qed

lemma is_hms_strftime:
  assumes "valid_datetime t"
  shows "is_hms (strftime_HMS t)"
proof -
  from assms have h: "hour t < 100" and m: "minute t < 100" and s: "second t < 100"
    by (simp_all add: valid_datetime_def)
  show ?thesis
    using two_digits [OF h] two_digits [OF m] two_digits [OF s]
    by (simp add: strftime_HMS_def zfill2_str_nat [OF h] zfill2_str_nat [OF m]
        zfill2_str_nat [OF s] is_hms_def)
qed

lemma keep_alive_line_prefix:
  "startswith (''Keep-alive: Scrolllock key pressed at '' @ t) ''Keep-alive: ''"
  "startswith (''Keep-alive: Outside work hours (8:00-17:00), skipping at '' @ t)
     ''Keep-alive: ''"
  "startswith (''Keep-alive: Running on battery power, skipping at '' @ t) ''Keep-alive: ''"
  "startswith (''Keep-alive: No wired ethernet connection, skipping at '' @ t)
     ''Keep-alive: ''"
  by simp_all

lemma keep_alive_line_suffix:
  "endswith (''Keep-alive: Scrolllock key pressed at '' @ t) t"
  "endswith (''Keep-alive: Outside work hours (8:00-17:00), skipping at '' @ t) t"
  "endswith (''Keep-alive: Running on battery power, skipping at '' @ t) t"
  "endswith (''Keep-alive: No wired ethernet connection, skipping at '' @ t) t"
  by (rule endswith_append)+

lemmas keep_alive_line_shape = keep_alive_line_prefix keep_alive_line_suffix

text \<open>
  C8, as the program behaves.  The notices of \<open>start_keep_alive\<close> and
  \<open>stop_keep_alive\<close> are \<open>Keep-alive started\<close> and \<open>Keep-alive stopped\<close>: no colon after
  the prefix and no time.
\<close>

theorem start_notice_counterexample:
  "stdout (start_keep_alive env_office init_app) = [''Keep-alive started''] \<and>
   \<not> startswith ''Keep-alive started'' ''Keep-alive:'' \<and>
   stdout (stop_keep_alive False env_office (start_keep_alive env_office init_app)) =
     [''Keep-alive started'', ''Keep-alive stopped''] \<and>
   \<not> startswith ''Keep-alive stopped'' ''Keep-alive:''"
  by (simp add: start_keep_alive_def stop_keep_alive_def thread_join_def init_app_def
      update_icon_def Let_def)

text \<open>
  C8, amended.  Every line a tick of the loop prints is either the error line of the
  ethernet check or a line that starts with \<open>Keep-alive: \<close> and ends with the time of
  the tick, which has the shape \<open>HH:MM:SS\<close>.
\<close>

theorem tick_log_lines:
  assumes "running s" and "tid \<in> set (loops s)" and "valid_datetime (now e)"
  shows "(\<forall>l \<in> set (drop (length (stdout s)) (stdout (keep_alive_loop_iter tid e s))).
            is_error_line l \<or>
            (startswith l ''Keep-alive: '' \<and> endswith l (strftime_HMS (now e)))) \<and>
         is_hms (strftime_HMS (now e))"
proof -
  let ?t = "strftime_HMS (now e)"
  let ?ok = "\<lambda>l. is_error_line l \<or> (startswith l ''Keep-alive: '' \<and> endswith l ?t)"
  have it: "keep_alive_loop_iter tid e s = loop_body e s"
    using assms by (simp add: keep_alive_loop_iter_def)
  have "\<forall>l \<in> set (drop (length (stdout s)) (stdout (loop_body e s))). ?ok l"
  proof (cases "fst (all_conditions_met e [])")
    case True
    obtain xs where xs: "stdout (loop_body e s) =
            stdout s @ [''Keep-alive: Scrolllock key pressed at '' @ ?t] @ xs"
        "\<forall>l \<in> set xs. is_error_line l"
      using loop_body_pressed [OF True, of s] by blast
    show ?thesis
      using xs(2) keep_alive_line_prefix(1) [of ?t] keep_alive_line_suffix(1) [of ?t]
      by (simp add: xs(1))
  next
    case False
    let ?line = "if \<not> is_work_hours e
             then ''Keep-alive: Outside work hours (8:00-17:00), skipping at '' @ ?t
             else if \<not> is_on_ac_power e
             then ''Keep-alive: Running on battery power, skipping at '' @ ?t
             else ''Keep-alive: No wired ethernet connection, skipping at '' @ ?t"
    obtain xs ys where xy: "stdout (loop_body e s) = stdout s @ xs @ [?line] @ ys"
        "\<forall>l \<in> set xs. is_error_line l" "\<forall>l \<in> set ys. is_error_line l"
      using loop_body_skipped [OF False, of s] by blast
    have k: "startswith ?line ''Keep-alive: '' \<and> endswith ?line ?t"
      using keep_alive_line_shape [of ?t] by presburger
    have "\<forall>l \<in> set (xs @ [?line] @ ys). ?ok l"
      using xy(2,3) k by auto
    then show ?thesis by (simp add: xy(1))
  qed
  then show ?thesis
    using is_hms_strftime [OF assms(3)] by (simp add: it)
qed

theorem tick_log_lines_witness:
  "stdout (keep_alive_loop_iter 0 env_night (start_keep_alive env_office init_app)) =
     [''Keep-alive started'',
      ''Keep-alive: Outside work hours (8:00-17:00), skipping at 23:59:07''] \<and>
   startswith ''Keep-alive: Outside work hours (8:00-17:00), skipping at 23:59:07''
     ''Keep-alive: '' \<and>
   endswith ''Keep-alive: Outside work hours (8:00-17:00), skipping at 23:59:07'' ''23:59:07'' \<and>
   is_hms ''23:59:07''"
proof -
  let ?s = "start_keep_alive env_office init_app"
  have s: "?s = init_app\<lparr>running := True, thread := Some 0, loops := [0],
                          threads_created := Suc 0, stdout := [''Keep-alive started'']\<rparr>"
    by (simp add: start_keep_alive_def init_app_def update_icon_def)
  have r: "running ?s" and l: "0 \<in> set (loops ?s)" and n: "length (stdout ?s) = 1"
    unfolding s by (simp_all add: init_app_def)
  have out: "stdout (keep_alive_loop_iter 0 env_night ?s) =
     [''Keep-alive started'',
      ''Keep-alive: Outside work hours (8:00-17:00), skipping at 23:59:07'']"
    unfolding s
    by (simp add: keep_alive_loop_iter_def loop_body_def all_conditions_met_def night_facts
        log_skip_reason_def str_work_hours update_icon_def init_app_def)
  show ?thesis
    using tick_log_lines [OF r l night_facts(3)]
    by (simp add: out n night_facts(2) is_error_line_def)
qed

subsection \<open>Start, stop and the loop threads\<close>

lemma one_loop_fields:
  "running a = running b \<Longrightarrow> loops a = loops b \<Longrightarrow> thread a = thread b \<Longrightarrow>
   one_loop a = one_loop b"
  by (simp add: one_loop_def split: option.splits)

lemma one_loop_update_icon: "one_loop (update_icon e s) = one_loop s"
  by (rule one_loop_fields) (simp_all add: update_icon_frame)

lemma one_loop_invariant: "one_loop s \<Longrightarrow> loop_invariant s"
  by (auto simp: one_loop_def loop_invariant_def split: if_splits option.splits)

lemma one_loop_init: "one_loop init_app"
  by (simp add: one_loop_def init_app_def)

lemma start_running: "running s \<Longrightarrow> start_keep_alive e s = s"
  by (simp add: start_keep_alive_def)

lemma start_stopped:
  "\<not> running s \<Longrightarrow>
   running (start_keep_alive e s) \<and>
   loops (start_keep_alive e s) = loops s @ [threads_created s] \<and>
   thread (start_keep_alive e s) = Some (threads_created s)"
  by (simp add: start_keep_alive_def update_icon_frame)

lemma stop_stopped: "\<not> running s \<Longrightarrow> stop_keep_alive joined e s = s"
  by (simp add: stop_keep_alive_def)

lemma stop_running:
  "running s \<Longrightarrow>
   \<not> running (stop_keep_alive joined e s) \<and>
   loops (stop_keep_alive joined e s) =
     (case thread s of
        Some tid \<Rightarrow> if joined then removeAll tid (loops s) else loops s
      | None \<Rightarrow> loops s) \<and>
   thread (stop_keep_alive joined e s) = thread s"
  by (simp add: stop_keep_alive_def update_icon_frame thread_join_def Let_def
      split: option.splits)

lemma loop_body_frame:
  "running (loop_body e s) = running s" "loops (loop_body e s) = loops s"
  "thread (loop_body e s) = thread s"
  by (simp_all add: loop_body_def update_icon_frame simulate_key_press_def
      split: prod.splits bool.splits)

lemma one_loop_start: "one_loop s \<Longrightarrow> one_loop (start_keep_alive e s)"
proof (cases "running s")
  case True
  assume "one_loop s"
  with True show ?thesis by (simp add: start_running)
next
  case False
  assume "one_loop s"
  with False have "loops s = []" by (simp add: one_loop_def)
  with start_stopped [OF False, of e] show ?thesis by (simp add: one_loop_def)
qed

lemma one_loop_stop: "one_loop s \<Longrightarrow> one_loop (stop_keep_alive True e s)"
proof (cases "running s")
  case False
  assume "one_loop s"
  with False show ?thesis by (simp add: stop_stopped)
next
  case True
  assume "one_loop s"
  with True obtain tid where "thread s = Some tid" "loops s = [tid]"
    by (auto simp: one_loop_def split: option.splits)
  with stop_running [OF True, of True e] show ?thesis by (simp add: one_loop_def)
qed

lemma one_loop_wake: "one_loop s \<Longrightarrow> one_loop (keep_alive_loop_iter tid e s)"
proof -
  assume inv: "one_loop s"
  show ?thesis
  proof (cases "tid \<in> set (loops s)")
    case False
    with inv show ?thesis by (simp add: keep_alive_loop_iter_def)
  next
    case True
    with inv have r: "running s" by (auto simp: one_loop_def split: if_splits)
    have "one_loop (loop_body e s) = one_loop s"
      by (rule one_loop_fields) (simp_all add: loop_body_frame)
    with inv True r show ?thesis by (simp add: keep_alive_loop_iter_def)
  qed
qed

lemma one_loop_step: "one_loop s \<Longrightarrow> snd ev \<noteq> Stop False \<Longrightarrow> one_loop (step s ev)"
proof -
  assume inv: "one_loop s" and ok: "snd ev \<noteq> Stop False"
  obtain e a where ev: "ev = (e, a)" by (cases ev)
  show ?thesis
  proof (cases a)
    case Start
    with inv ev show ?thesis by (simp add: one_loop_start)
  next
    case (Stop joined)
    with ok ev have "joined" by simp
    with inv ev Stop show ?thesis by (simp add: one_loop_stop)
  next
    case (Wake tid)
    with inv ev show ?thesis by (simp add: one_loop_wake)
  qed
qed

lemma one_loop_run: "one_loop s \<Longrightarrow> joins_succeed evs \<Longrightarrow> one_loop (run_events evs s)"
  unfolding run_events_def joins_succeed_def
  by (induction evs arbitrary: s) (simp_all add: one_loop_step)

lemma office_all_met: "all_conditions_met env_office out = (True, out)"
  using all_met_shape [of env_office out] office_conditions
  by (auto simp: all_met_fst)

text \<open>
  What holds of start and stop: \<open>start_keep_alive\<close> changes nothing when the controller
  runs (\<open>start_running\<close>) and otherwise sets the flag and launches one new loop thread
  (\<open>start_stopped\<close>); \<open>stop_keep_alive\<close> changes nothing when the controller is stopped
  (\<open>stop_stopped\<close>) and otherwise clears the flag (\<open>stop_running\<close>).  As long as every
  join of a stop succeeds, the controller runs exactly when one loop thread exists and
  there are never two: the join that times out is the only way out of the invariant.
\<close>

lemma invariant_while_joins_succeed:
  "joins_succeed evs \<Longrightarrow> loop_invariant (run_events evs init_app)"
  by (simp add: one_loop_invariant one_loop_run one_loop_init)

lemma start_twice_from_init:
  "running (start_keep_alive e' (start_keep_alive e init_app)) \<and>
   loops (start_keep_alive e' (start_keep_alive e init_app)) = [0]"
proof -
  have i: "\<not> running init_app" "loops init_app = []" "threads_created init_app = 0"
    by (simp_all add: init_app_def)
  have r: "running (start_keep_alive e init_app)"
    and l: "loops (start_keep_alive e init_app) = [0]"
    using start_stopped [OF i(1), of e] by (simp_all add: i)
  show ?thesis by (simp add: start_running [OF r] r l)
qed

text \<open>
  C3.  The invariant the claim states (the controller runs exactly when one loop thread
  exists, and never two) is broken by the program.  \<open>stop_keep_alive\<close> waits one second
  for a loop thread that sleeps \<open>UPDATE_PERIOD = 30\<close> seconds between its loop tests.
  Start, one tick of thread 0, then a stop whose join times out: the controller is
  stopped and thread 0 still exists.  A start before thread 0 wakes launches thread 1.
  Thread 0 then wakes, finds the flag on and goes on: two loop threads for one
  controller, for good, each pressing the key at its tick.
\<close>

theorem restart_within_sleep_two_loops:
  "running (run_events [(env_office, Start), (env_office, Wake 0), (env_office, Stop False)]
              init_app) = False \<and>
   loops (run_events [(env_office, Start), (env_office, Wake 0), (env_office, Stop False)]
            init_app) = [0] \<and>
   running (run_events [(env_office, Start), (env_office, Wake 0), (env_office, Stop False),
                        (env_office, Start)] init_app) = True \<and>
   loops (run_events [(env_office, Start), (env_office, Wake 0), (env_office, Stop False),
                      (env_office, Start)] init_app) = [0, 1] \<and>
   \<not> loop_invariant
        (run_events [(env_office, Start), (env_office, Wake 0), (env_office, Stop False),
                     (env_office, Start)] init_app) \<and>
   running (run_events [(env_office, Start), (env_office, Wake 0), (env_office, Stop False),
                        (env_office, Start), (env_office, Wake 1), (env_office, Wake 0)]
              init_app) = True \<and>
   loops (run_events [(env_office, Start), (env_office, Wake 0), (env_office, Stop False),
                      (env_office, Start), (env_office, Wake 1), (env_office, Wake 0)]
            init_app) = [0, 1] \<and>
   key_presses
     (run_events [(env_office, Start), (env_office, Wake 0), (env_office, Stop False),
                  (env_office, Start), (env_office, Wake 1), (env_office, Wake 0)]
        init_app) = [''scrolllock'', ''scrolllock'', ''scrolllock'']"
  by (simp add: run_events_def start_keep_alive_def stop_keep_alive_def thread_join_def
      keep_alive_loop_iter_def loop_body_def office_all_met simulate_key_press_def
      update_icon_def init_app_def Let_def loop_invariant_def KEEP_ALIVE_KEY_def)

end
